theory Spec2Isabelle
  imports Main
begin

section \<open>The healthcare pipeline of dags/healthcare.py\<close>

text \<open>
  The DAG has five tasks: \<open>fetch_patients\<close>, \<open>fetch_appointments\<close>, \<open>merge_csvs\<close>,
  \<open>load_csv_to_pg\<close> and \<open>cleanup_folder\<close> (the charting task renders an image and is
  not modelled). Each task is a function here; what a task reads and writes (files, the
  Faker generator, the PostgreSQL connection) is passed in and returned explicitly.
\<close>

subsection \<open>Exceptions\<close>

text \<open>
  The Python exceptions a task can end with. \<open>DatabaseError\<close> is \<open>psycopg2.Error\<close>
  (imported under that name at line 10), the base class of every psycopg2 exception;
  \<open>OtherError\<close> is any exception that is not a \<open>psycopg2.Error\<close>.
\<close>

datatype exn = IndexError | KeyError | ValueError | FileNotFoundError
  | DatabaseError | OtherError

text \<open>The name of the exception's class.\<close>

definition exn_name :: "exn \<Rightarrow> string" where
  "exn_name e =
     (case e of IndexError \<Rightarrow> ''IndexError'' | KeyError \<Rightarrow> ''KeyError''
      | ValueError \<Rightarrow> ''ValueError'' | FileNotFoundError \<Rightarrow> ''FileNotFoundError''
      | DatabaseError \<Rightarrow> ''psycopg2.Error'' | OtherError \<Rightarrow> ''Exception'')"

definition exn_bind :: "exn + 'a \<Rightarrow> ('a \<Rightarrow> exn + 'b) \<Rightarrow> exn + 'b" where
  "exn_bind m f = (case m of Inl e \<Rightarrow> Inl e | Inr x \<Rightarrow> f x)"

subsection \<open>Files and paths\<close>

text \<open>
  A CSV file is the list of its records, each record the list of its fields; the header is
  the first record. Quoting, delimiters and line ends are the csv module's business and lie
  below this model. The file system maps a path to the records of the file there;
  directories are not modelled (\<open>os.makedirs(..., exist_ok=True)\<close> precedes every write).
\<close>

type_synonym csv_file = "string list list"
type_synonym fs = "string \<rightharpoonup> csv_file"

text \<open>\<open>os.path.join\<close> of posixpath, for two components.\<close>

definition os_path_join :: "string \<Rightarrow> string \<Rightarrow> string" where
  "os_path_join a b =
     (if take 1 b = ''/'' then b
      else if a = [] \<or> last a = CHR ''/'' then a @ b
      else a @ ''/'' @ b)"

subsection \<open>csv.DictReader\<close>

text \<open>
  A value read from a CSV file is a string, or Python's \<open>None\<close> where the record is
  shorter than the header (\<open>restval\<close>).
\<close>

type_synonym cell = "string option"
type_synonym rdict = "string \<rightharpoonup> cell"

text \<open>
  \<open>dict(zip(fieldnames, row))\<close>, then \<open>d[key] = restval\<close> for the field names beyond the
  record's length. Fields beyond the header's length go under the key \<open>None\<close>
  (\<open>restkey\<close>), which no task reads; that entry is left out.
\<close>

definition row_dict :: "string list \<Rightarrow> string list \<Rightarrow> rdict" where
  "row_dict fieldnames row =
     fold (\<lambda>key d. d(key \<mapsto> None)) (drop (length row) fieldnames)
       (fold (\<lambda>kv d. d(fst kv \<mapsto> Some (snd kv))) (zip fieldnames row) Map.empty)"

text \<open>
  The reader's \<open>fieldnames\<close> (the first record, \<open>None\<close> for an empty file) and
  \<open>list(reader)\<close>: one dict for each later record, records without fields skipped.
\<close>

definition DictReader :: "csv_file \<Rightarrow> string list option \<times> rdict list" where
  "DictReader recs =
     (case recs of
        [] \<Rightarrow> (None, [])
      | h # rest \<Rightarrow> (Some h, map (row_dict h) (filter (\<lambda>r. r \<noteq> []) rest)))"

subsection \<open>csv.DictWriter\<close>

text \<open>
  A dict built by a dict display is the list of its items in insertion order.
  \<open>_dict_to_list\<close> raises \<open>ValueError\<close> for a key that is not a field name
  (\<open>extrasaction='raise'\<close>) and otherwise takes \<open>rowdict.get(key, '')\<close> for every
  field name; \<open>str\<close> is the writer's conversion of a value to text.
\<close>

definition dict_to_list ::
  "string list \<Rightarrow> ('v \<Rightarrow> string) \<Rightarrow> (string \<times> 'v) list \<Rightarrow> exn + string list" where
  "dict_to_list fieldnames str rowdict =
     (if list_ex (\<lambda>k. k \<notin> set fieldnames) (map fst rowdict) then Inl ValueError
      else Inr (map (\<lambda>key. case map_of rowdict key of None \<Rightarrow> [] | Some v \<Rightarrow> str v)
                  fieldnames))"

text \<open>\<open>writerows\<close>: the records are written one by one, up to the first that raises.\<close>

fun writerows ::
  "string list \<Rightarrow> ('v \<Rightarrow> string) \<Rightarrow> (string \<times> 'v) list list \<Rightarrow> csv_file
     \<Rightarrow> exn option \<times> csv_file" where
  "writerows fieldnames str [] out = (None, out)"
| "writerows fieldnames str (d # ds) out =
     (case dict_to_list fieldnames str d of
        Inl e \<Rightarrow> (Some e, out)
      | Inr r \<Rightarrow> writerows fieldnames str ds (out @ [r]))"

text \<open>
  The block shared by the three writing tasks:
  \<^verbatim>\<open>
  with open(path, "w", newline="", encoding="utf-8") as f:
      writer = csv.DictWriter(f, fieldnames=data[0].keys())
      writer.writeheader()
      writer.writerows(data)
  \<close>
  \<open>open\<close> creates or truncates the file before \<open>data[0]\<close> is evaluated, so an empty
  \<open>data\<close> leaves an empty file behind the \<open>IndexError\<close>.
\<close>

definition write_csv ::
  "fs \<Rightarrow> string \<Rightarrow> ('v \<Rightarrow> string) \<Rightarrow> (string \<times> 'v) list list \<Rightarrow> exn option \<times> fs" where
  "write_csv files path str data =
     (case data of
        [] \<Rightarrow> (Some IndexError, files(path \<mapsto> []))
      | d0 # _ \<Rightarrow>
          (case writerows (map fst d0) str data [map fst d0] of
             (err, out) \<Rightarrow> (err, files(path \<mapsto> out))))"

subsection \<open>merge_csvs\<close>

definition getitem :: "rdict \<Rightarrow> string \<Rightarrow> exn + cell" where
  "getitem d key = (case d key of None \<Rightarrow> Inl KeyError | Some v \<Rightarrow> Inr v)"

text \<open>\<open>str(v)\<close> inside the f-string, and the csv writer's text for a value.\<close>

definition py_str :: "cell \<Rightarrow> string" where
  "py_str v = (case v of None \<Rightarrow> ''None'' | Some s \<Rightarrow> s)"

definition cell_text :: "cell \<Rightarrow> string" where
  "cell_text v = (case v of None \<Rightarrow> [] | Some s \<Rightarrow> s)"

text \<open>The dict display of lines 109 to 118; the subscriptions are evaluated in order.\<close>

definition merged_row :: "rdict \<Rightarrow> rdict \<Rightarrow> exn + (string \<times> cell) list" where
  "merged_row p a =
     exn_bind (getitem p ''first_name'') (\<lambda>first_name.
     exn_bind (getitem p ''last_name'') (\<lambda>last_name.
     exn_bind (getitem p ''email'') (\<lambda>email.
     exn_bind (getitem p ''blood_type'') (\<lambda>blood_type.
     exn_bind (getitem a ''doctor_name'') (\<lambda>doctor_name.
     exn_bind (getitem a ''department'') (\<lambda>department.
     exn_bind (getitem a ''appointment_date'') (\<lambda>appointment_date.
     exn_bind (getitem a ''status'') (\<lambda>status.
     exn_bind (getitem a ''consultation_fee'') (\<lambda>consultation_fee.
       Inr [(''patient_name'', Some (py_str first_name @ '' '' @ py_str last_name)),
            (''patient_email'', email),
            (''blood_type'', blood_type),
            (''doctor_name'', doctor_name),
            (''department'', department),
            (''appointment_date'', appointment_date),
            (''status'', status),
            (''consultation_fee'', consultation_fee)])))))))))"

text \<open>The loop of lines 105 to 119, over the indices \<open>range(min(len(patients), len(appointments)))\<close>.\<close>

fun merge_loop ::
  "rdict list \<Rightarrow> rdict list \<Rightarrow> nat list \<Rightarrow> (string \<times> cell) list list
     \<Rightarrow> exn + (string \<times> cell) list list" where
  "merge_loop patients appointments [] merged = Inr merged"
| "merge_loop patients appointments (i # is) merged =
     (case merged_row (patients ! i) (appointments ! i) of
        Inl e \<Rightarrow> Inl e
      | Inr r \<Rightarrow> merge_loop patients appointments is (merged @ [r]))"

definition merge_rows :: "rdict list \<Rightarrow> rdict list \<Rightarrow> exn + (string \<times> cell) list list" where
  "merge_rows patients appointments =
     merge_loop patients appointments [0 ..< min (length patients) (length appointments)] []"

text \<open>The task: the result is the returned path or the exception, and the files afterwards.\<close>

definition merge_csvs :: "fs \<Rightarrow> string \<Rightarrow> string \<Rightarrow> string \<Rightarrow> (exn + string) \<times> fs" where
  "merge_csvs files patients_path appointments_path output_dir =
     (let merged_path = os_path_join output_dir ''merged_data.csv'' in
      case files patients_path of
        None \<Rightarrow> (Inl FileNotFoundError, files)
      | Some f1 \<Rightarrow>
       (case files appointments_path of
          None \<Rightarrow> (Inl FileNotFoundError, files)
        | Some f2 \<Rightarrow>
         (case merge_rows (snd (DictReader f1)) (snd (DictReader f2)) of
            Inl e \<Rightarrow> (Inl e, files)
          | Inr merged \<Rightarrow>
             (case write_csv files merged_path cell_text merged of
                (Some e, files') \<Rightarrow> (Inl e, files')
              | (None, files') \<Rightarrow> (Inr merged_path, files')))))"

text \<open>The dict of lines 109 to 118 for a pair of rows where no subscription raises.\<close>

definition merged_of :: "rdict \<Rightarrow> rdict \<Rightarrow> (string \<times> cell) list" where
  "merged_of p a = (case merged_row p a of Inl e \<Rightarrow> [] | Inr r \<Rightarrow> r)"

definition merged_columns :: "string list" where
  "merged_columns = [''patient_name'', ''patient_email'', ''blood_type'', ''doctor_name'',
     ''department'', ''appointment_date'', ''status'', ''consultation_fee'']"

text \<open>Example input: two patients and one appointment, in \<open>/data\<close>.\<close>

definition example_patients_file :: csv_file where
  "example_patients_file =
     [[''patient_id'', ''first_name'', ''last_name'', ''email'', ''blood_type''],
      [''p1'', ''Ada'', ''Lovelace'', ''ada@example.org'', ''A+''],
      [''p2'', ''Alan'', ''Turing'', ''alan@example.org'', ''O-'']]"

definition example_appointments_file :: csv_file where
  "example_appointments_file =
     [[''doctor_name'', ''department'', ''appointment_date'', ''status'', ''consultation_fee''],
      [''Dr. Grace Hopper'', ''Cardiology'', ''2025-10-02'', ''scheduled'', ''120.5'']]"

definition example_files :: fs where
  "example_files =
     [''/data/patients.csv'' \<mapsto> example_patients_file,
      ''/data/appointments.csv'' \<mapsto> example_appointments_file]"

text \<open>
  The same directory with a patients file that has its header and no row, and with an
  appointments file of zero bytes.
\<close>

definition example_files_no_patients :: fs where
  "example_files_no_patients =
     [''/data/patients.csv'' \<mapsto>
        [[''patient_id'', ''first_name'', ''last_name'', ''email'', ''blood_type'']],
      ''/data/appointments.csv'' \<mapsto> example_appointments_file]"

definition example_files_no_appointments :: fs where
  "example_files_no_appointments =
     [''/data/patients.csv'' \<mapsto> example_patients_file,
      ''/data/appointments.csv'' \<mapsto> []]"

subsection \<open>The Faker generator\<close>

text \<open>
  A value of a generated row: a string, an int (\<open>duration_minutes\<close>) or a float, kept as
  the text Python prints for it (\<open>consultation_fee\<close>; floating point is not modelled).
\<close>

datatype pyval = PStr string | PInt int | PFloat string

text \<open>
  The \<open>Faker()\<close> instance is a source of draws: the \<open>n\<close>-th call takes the \<open>n\<close>-th
  draw, a number for a choice and a text for a provider that returns free text (names,
  dates, uuids, the printed float). Nothing is assumed about the draws.
\<close>

record faker =
  calls :: nat
  draw_nat :: "nat \<Rightarrow> nat"
  draw_text :: "nat \<Rightarrow> string"

definition fake_text :: "faker \<Rightarrow> string \<times> faker" where
  "fake_text f = (draw_text f (calls f), f\<lparr>calls := Suc (calls f)\<rparr>)"

text \<open>\<open>fake.random_element(elements)\<close>: one of the elements, chosen by the draw.\<close>

definition random_element :: "faker \<Rightarrow> 'a list \<Rightarrow> 'a \<times> faker" where
  "random_element f elements =
     (elements ! (draw_nat f (calls f) mod length elements), f\<lparr>calls := Suc (calls f)\<rparr>)"

text \<open>\<open>s.replace("\n", ", ")\<close>.\<close>

definition replace_newline :: "string \<Rightarrow> string" where
  "replace_newline s = concat (map (\<lambda>c. if c = CHR 0x0A then '', '' else [c]) s)"

text \<open>\<open>str\<close> of an int, for the csv writer.\<close>

function str_nat :: "nat \<Rightarrow> string" where
  "str_nat n =
     (if n < 10 then [''0123456789'' ! n]
      else str_nat (n div 10) @ [''0123456789'' ! (n mod 10)])"
  by pat_completeness auto
termination
  by (relation "measure id") auto

declare str_nat.simps [simp del]

definition str_int :: "int \<Rightarrow> string" where
  "str_int i = (if i < 0 then CHR ''-'' # str_nat (nat (- i)) else str_nat (nat i))"

definition pyval_text :: "pyval \<Rightarrow> string" where
  "pyval_text v = (case v of PStr s \<Rightarrow> s | PInt i \<Rightarrow> str_int i | PFloat t \<Rightarrow> t)"

subsection \<open>fetch_patients\<close>

text \<open>The dict display of lines 35 to 49: one patient, the calls in the order written.\<close>

definition patient :: "faker \<Rightarrow> (string \<times> pyval) list \<times> faker" where
  "patient f0 =
     (case fake_text f0 of (patient_id, f1) \<Rightarrow>
      case fake_text f1 of (first_name, f2) \<Rightarrow>
      case fake_text f2 of (last_name, f3) \<Rightarrow>
      case fake_text f3 of (date_of_birth, f4) \<Rightarrow>
      case random_element f4 [''Male'', ''Female'', ''Other''] of (gender, f5) \<Rightarrow>
      case random_element f5 [''A+'', ''A-'', ''B+'', ''B-'', ''O+'', ''O-'', ''AB+'', ''AB-'']
        of (blood_type, f6) \<Rightarrow>
      case fake_text f6 of (email, f7) \<Rightarrow>
      case fake_text f7 of (phone, f8) \<Rightarrow>
      case fake_text f8 of (address, f9) \<Rightarrow>
        ([(''patient_id'', PStr patient_id),
          (''first_name'', PStr first_name),
          (''last_name'', PStr last_name),
          (''date_of_birth'', PStr date_of_birth),
          (''gender'', PStr gender),
          (''blood_type'', PStr blood_type),
          (''email'', PStr email),
          (''phone'', PStr phone),
          (''address'', PStr (replace_newline address))], f9))"

text \<open>\<open>for _ in range(quantity): data.append(...)\<close>.\<close>

fun patients_loop ::
  "nat \<Rightarrow> faker \<Rightarrow> (string \<times> pyval) list list \<Rightarrow> (string \<times> pyval) list list \<times> faker" where
  "patients_loop 0 f data = (data, f)"
| "patients_loop (Suc n) f data =
     (case patient f of (row, f') \<Rightarrow> patients_loop n f' (data @ [row]))"

text \<open>\<open>range(quantity)\<close> is empty for a quantity below 1, hence \<open>nat quantity\<close> rounds.\<close>

definition fetch_patients :: "fs \<Rightarrow> faker \<Rightarrow> string \<Rightarrow> int \<Rightarrow> (exn + string) \<times> fs" where
  "fetch_patients files fake output_dir quantity =
     (let data = fst (patients_loop (nat quantity) fake []);
          path = os_path_join output_dir ''patients.csv''
      in case write_csv files path pyval_text data of
           (Some e, files') \<Rightarrow> (Inl e, files')
         | (None, files') \<Rightarrow> (Inr path, files'))"

subsection \<open>fetch_appointments\<close>

definition departments :: "string list" where
  "departments = [''Cardiology'', ''Neurology'', ''Pediatrics'', ''Orthopedics'', ''Dermatology'']"

definition appointment :: "faker \<Rightarrow> (string \<times> pyval) list \<times> faker" where
  "appointment f0 =
     (case fake_text f0 of (appointment_id, f1) \<Rightarrow>
      case fake_text f1 of (name, f2) \<Rightarrow>
      case random_element f2 departments of (department, f3) \<Rightarrow>
      case fake_text f3 of (appointment_date, f4) \<Rightarrow>
      case fake_text f4 of (appointment_time, f5) \<Rightarrow>
      case random_element f5 [15, 30, 45, 60] of (duration_minutes, f6) \<Rightarrow>
      case random_element f6 [''scheduled'', ''completed'', ''cancelled'', ''no-show'']
        of (status, f7) \<Rightarrow>
      case fake_text f7 of (consultation_fee, f8) \<Rightarrow>
        ([(''appointment_id'', PStr appointment_id),
          (''doctor_name'', PStr (''Dr. '' @ name)),
          (''department'', PStr department),
          (''appointment_date'', PStr appointment_date),
          (''appointment_time'', PStr appointment_time),
          (''duration_minutes'', PInt duration_minutes),
          (''status'', PStr status),
          (''consultation_fee'', PFloat consultation_fee)], f8))"

fun appointments_loop ::
  "nat \<Rightarrow> faker \<Rightarrow> (string \<times> pyval) list list \<Rightarrow> (string \<times> pyval) list list \<times> faker" where
  "appointments_loop 0 f data = (data, f)"
| "appointments_loop (Suc n) f data =
     (case appointment f of (row, f') \<Rightarrow> appointments_loop n f' (data @ [row]))"

definition fetch_appointments :: "fs \<Rightarrow> faker \<Rightarrow> string \<Rightarrow> int \<Rightarrow> (exn + string) \<times> fs" where
  "fetch_appointments files fake output_dir quantity =
     (let data = fst (appointments_loop (nat quantity) fake []);
          path = os_path_join output_dir ''appointments.csv''
      in case write_csv files path pyval_text data of
           (Some e, files') \<Rightarrow> (Inl e, files')
         | (None, files') \<Rightarrow> (Inr path, files'))"

subsection \<open>The PostgreSQL connection\<close>

text \<open>
  The database is an external server. Its state is the set of schemas and, for each
  schema and table name, the table's columns and rows; a row is stored as the columns the
  INSERT named, each with its value (\<open>None\<close> is NULL).
\<close>

record table =
  columns :: "string list"
  rows :: "(string \<times> cell) list list"

record database =
  schemas :: "string set"
  tables :: "string \<times> string \<rightharpoonup> table"

text \<open>
  The calls the loader makes on the hook, the cursor and the connection;
  \<open>InsertRow i\<close> is the INSERT of \<open>executemany\<close> for the row at index \<open>i\<close>.
  Whether a call raises is the server's and the network's decision: it is given by a
  fault plan, the exception each call raises, if any. A statement the plan lets through
  has the effect SQL gives it.
\<close>

datatype db_op = GetConn | CreateSchema | CreateTable | DeleteRows | InsertRow nat
  | Commit | Rollback | Close

type_synonym faults = "db_op \<Rightarrow> exn option"

text \<open>\<open>CREATE SCHEMA IF NOT EXISTS schema\<close>.\<close>

definition create_schema :: "string \<Rightarrow> database \<Rightarrow> database" where
  "create_schema schema db = db\<lparr>schemas := insert schema (schemas db)\<rparr>"

text \<open>\<open>CREATE TABLE IF NOT EXISTS schema.table (col TEXT, ...)\<close>: an existing table is kept.\<close>

definition create_table :: "string \<Rightarrow> string \<Rightarrow> string list \<Rightarrow> database \<Rightarrow> database" where
  "create_table schema tbl fieldnames db =
     (case tables db (schema, tbl) of
        None \<Rightarrow> db\<lparr>tables := (tables db)((schema, tbl) \<mapsto> \<lparr>columns = fieldnames, rows = []\<rparr>)\<rparr>
      | Some t \<Rightarrow> db)"

text \<open>\<open>DELETE FROM schema.table\<close>; the server rejects it for a table that does not exist.\<close>

definition delete_rows :: "string \<Rightarrow> string \<Rightarrow> database \<Rightarrow> exn + database" where
  "delete_rows schema tbl db =
     (case tables db (schema, tbl) of
        None \<Rightarrow> Inl DatabaseError
      | Some t \<Rightarrow> Inr (db\<lparr>tables := (tables db)((schema, tbl) \<mapsto> t\<lparr>rows := []\<rparr>)\<rparr>))"

text \<open>\<open>INSERT INTO schema.table (fieldnames) VALUES (%s, ...)\<close> with one row of parameters.\<close>

definition insert_row ::
  "string \<Rightarrow> string \<Rightarrow> string list \<Rightarrow> cell list \<Rightarrow> database \<Rightarrow> exn + database" where
  "insert_row schema tbl fieldnames row db =
     (case tables db (schema, tbl) of
        None \<Rightarrow> Inl DatabaseError
      | Some t \<Rightarrow>
          Inr (db\<lparr>tables := (tables db)((schema, tbl) \<mapsto>
                 t\<lparr>rows := rows t @ [zip fieldnames row]\<rparr>)\<rparr>))"

text \<open>\<open>cur.executemany(insert_sql, rows)\<close>: the rows in order, up to the first that raises.\<close>

fun executemany ::
  "faults \<Rightarrow> string \<Rightarrow> string \<Rightarrow> string list \<Rightarrow> cell list list \<Rightarrow> nat \<Rightarrow> database
     \<Rightarrow> exn + database" where
  "executemany F schema tbl fieldnames [] i db = Inr db"
| "executemany F schema tbl fieldnames (r # rs) i db =
     (case F (InsertRow i) of
        Some e \<Rightarrow> Inl e
      | None \<Rightarrow>
         (case insert_row schema tbl fieldnames r db of
            Inl e \<Rightarrow> Inl e
          | Inr db' \<Rightarrow> executemany F schema tbl fieldnames rs (Suc i) db'))"

subsection \<open>load_csv_to_pg\<close>

text \<open>\<open>r.get(col, "") or None\<close>: an empty string and \<open>None\<close> both become \<open>None\<close>.\<close>

definition get_or_none :: "rdict \<Rightarrow> string \<Rightarrow> cell" where
  "get_or_none r col =
     (case r col of
        None \<Rightarrow> None
      | Some None \<Rightarrow> None
      | Some (Some s) \<Rightarrow> if s = [] then None else Some s)"

text \<open>
  Lines 134 to 139: the field names and the tuples. For an empty file \<open>fieldnames\<close> is
  \<open>None\<close> and the reader yields no row, so the inner loop over it never runs; the model
  takes the empty list of names there.
\<close>

definition load_fieldnames :: "csv_file \<Rightarrow> string list" where
  "load_fieldnames recs = (case fst (DictReader recs) of None \<Rightarrow> [] | Some h \<Rightarrow> h)"

definition load_rows :: "csv_file \<Rightarrow> cell list list" where
  "load_rows recs =
     map (\<lambda>r. map (\<lambda>col. get_or_none r col) (load_fieldnames recs)) (snd (DictReader recs))"

text \<open>
  The body of the \<open>try\<close> (lines 156 to 162), on the transaction's view of the database:
  the statements in order and the commit. It gives the database as committed, or the
  exception of the first call that raises.
\<close>

definition transaction ::
  "faults \<Rightarrow> string \<Rightarrow> string \<Rightarrow> string list \<Rightarrow> cell list list \<Rightarrow> bool \<Rightarrow> database
     \<Rightarrow> exn + database" where
  "transaction F schema tbl fieldnames data append_flag db =
     (case F CreateSchema of
        Some e \<Rightarrow> Inl e
      | None \<Rightarrow>
     (case F CreateTable of
        Some e \<Rightarrow> Inl e
      | None \<Rightarrow>
         exn_bind
           (if append_flag then Inr (create_table schema tbl fieldnames (create_schema schema db))
            else (case F DeleteRows of
                    Some e \<Rightarrow> Inl e
                  | None \<Rightarrow>
                      delete_rows schema tbl
                        (create_table schema tbl fieldnames (create_schema schema db))))
           (\<lambda>db1.
              exn_bind (executemany F schema tbl fieldnames data 0 db1)
                (\<lambda>db2. case F Commit of Some e \<Rightarrow> Inl e | None \<Rightarrow> Inr db2))))"

text \<open>
  The task. \<open>db\<close> is the committed state of the database that \<open>conn_id\<close> designates; the
  result is the returned count or the exception that leaves the task, with the committed
  state afterwards. Only a commit changes it: a rollback and a close discard the
  transaction's view. \<open>except DatabaseError\<close> catches a \<open>psycopg2.Error\<close> only, an
  exception raised by \<open>conn.rollback()\<close> leaves the handler, and one raised by
  \<open>conn.close()\<close> in the \<open>finally\<close> replaces the outcome so far.
\<close>

definition load_csv_to_pg ::
  "faults \<Rightarrow> fs \<Rightarrow> database \<Rightarrow> string \<Rightarrow> string \<Rightarrow> bool \<Rightarrow> (exn + int) \<times> database" where
  "load_csv_to_pg F files db csv_path tbl append_flag =
     (let schema = ''week8_demo'' in
      case files csv_path of
        None \<Rightarrow> (Inl FileNotFoundError, db)
      | Some recs \<Rightarrow>
          let fieldnames = load_fieldnames recs; data = load_rows recs in
          if data = [] then (Inr 0, db)
          else
           (case F GetConn of
              Some e \<Rightarrow> (Inl e, db)
            | None \<Rightarrow>
               (let outcome =
                  (case transaction F schema tbl fieldnames data append_flag db of
                     Inr db' \<Rightarrow> (Inr (int (length data)), db')
                   | Inl e \<Rightarrow>
                       if e = DatabaseError then
                         (case F Rollback of
                            Some e' \<Rightarrow> (Inl e', db)
                          | None \<Rightarrow> (Inr 0, db))
                       else (Inl e, db))
                in case F Close of
                     Some e \<Rightarrow> (Inl e, snd outcome)
                   | None \<Rightarrow> outcome)))"

subsection \<open>cleanup_folder\<close>

text \<open>
  The directory at \<open>folder_path\<close> is the list of its entries, each a name with a regular
  file (and its content) or a subdirectory; \<open>os.path.join(folder_path, filename)\<close>
  designates the entry named \<open>filename\<close>.
\<close>

datatype 'c node = File 'c | Dir

type_synonym 'c directory = "(string \<times> 'c node) list"

definition os_listdir :: "'c directory \<Rightarrow> string list" where
  "os_listdir d = map fst d"

definition os_path_isfile :: "'c directory \<Rightarrow> string \<Rightarrow> bool" where
  "os_path_isfile d name = (case map_of d name of Some (File c) \<Rightarrow> True | _ \<Rightarrow> False)"

definition os_remove :: "'c directory \<Rightarrow> string \<Rightarrow> 'c directory" where
  "os_remove d name = filter (\<lambda>entry. fst entry \<noteq> name) d"

definition endswith :: "string \<Rightarrow> string \<Rightarrow> bool" where
  "endswith s suffix =
     (length suffix \<le> length s \<and> drop (length s - length suffix) s = suffix)"

text \<open>The loop of lines 212 to 215, over the listing taken before the first removal.\<close>

definition cleanup_folder :: "'c directory \<Rightarrow> 'c directory" where
  "cleanup_folder d =
     fold (\<lambda>filename d'.
             if os_path_isfile d' filename \<and> endswith filename ''.csv''
             then os_remove d' filename else d')
          (os_listdir d) d"

text \<open>The entries the task is to delete: regular files whose name ends with \<open>.csv\<close>.\<close>

definition is_csv_file :: "string \<times> 'c node \<Rightarrow> bool" where
  "is_csv_file entry =
     ((case snd entry of File c \<Rightarrow> True | Dir \<Rightarrow> False) \<and> endswith (fst entry) ''.csv'')"

text \<open>A directory with two CSV files, another file and a subdirectory named like a CSV file.\<close>

definition example_dir :: "nat directory" where
  "example_dir = [(''merged_data.csv'', File 1), (''dashboard.png'', File 2),
                  (''old.csv'', Dir), (''patients.csv'', File 3)]"

section \<open>Properties\<close>

subsection \<open>Reading and writing CSV files\<close>

lemma dom_fold_none: "dom (fold (\<lambda>key d. d(key \<mapsto> v)) ks m) = dom m \<union> set ks"
  by (induction ks arbitrary: m) auto

lemma dom_fold_zip:
  "dom (fold (\<lambda>kv d. d(fst kv \<mapsto> Some (snd kv))) kvs m) = dom m \<union> fst ` set kvs"
  by (induction kvs arbitrary: m) auto

lemma fst_set_zip: "fst ` set (zip xs ys) = set (take (length ys) xs)"
proof -
  have "map fst (zip xs ys) = take (length ys) xs"
    by (simp add: map_fst_zip_take min_def)
  then show ?thesis by (metis set_map)
qed

text \<open>Every dict the reader yields has exactly the header's names as keys.\<close>

lemma dom_row_dict: "dom (row_dict fieldnames row) = set fieldnames"
proof -
  have "set (take (length row) fieldnames) \<union> set (drop (length row) fieldnames) = set fieldnames"
    by (metis append_take_drop_id set_append)
  then show ?thesis
    by (simp add: row_dict_def dom_fold_none dom_fold_zip fst_set_zip)
qed

lemma writerows_ok:
  "(\<And>d. d \<in> set ds \<Longrightarrow> set (map fst d) \<subseteq> set fieldnames) \<Longrightarrow>
   writerows fieldnames str ds out =
     (None, out @ map (\<lambda>d. map (\<lambda>key. case map_of d key of None \<Rightarrow> [] | Some v \<Rightarrow> str v)
                               fieldnames) ds)"
proof (induction ds arbitrary: out)
  case Nil
  then show ?case by simp
next
  case (Cons d ds)
  have "dict_to_list fieldnames str d =
      Inr (map (\<lambda>key. case map_of d key of None \<Rightarrow> [] | Some v \<Rightarrow> str v) fieldnames)"
    using Cons.prems[of d] by (auto simp: dict_to_list_def list_ex_iff)
  then show ?case using Cons by simp
qed

subsection \<open>merge_csvs\<close>

lemma merged_row_ok:
  assumes "p ''first_name'' = Some fn" "p ''last_name'' = Some ln" "p ''email'' = Some em"
    "p ''blood_type'' = Some bt" "a ''doctor_name'' = Some dn" "a ''department'' = Some dp"
    "a ''appointment_date'' = Some ad" "a ''status'' = Some st" "a ''consultation_fee'' = Some fee"
  shows "merged_row p a = Inr [(''patient_name'', Some (py_str fn @ '' '' @ py_str ln)),
            (''patient_email'', em), (''blood_type'', bt), (''doctor_name'', dn),
            (''department'', dp), (''appointment_date'', ad), (''status'', st),
            (''consultation_fee'', fee)]"
  unfolding merged_row_def getitem_def exn_bind_def using assms by simp

lemma merge_loop_ok:
  "(\<And>i. i \<in> set is \<Longrightarrow> merged_row (ps ! i) (as ! i) = Inr (f i)) \<Longrightarrow>
   merge_loop ps as is acc = Inr (acc @ map f is)"
  by (induction "is" arbitrary: acc) auto

subsection \<open>cleanup_folder\<close>

lemma isfile_iff:
  assumes "distinct (map fst d)"
  shows "os_path_isfile d name \<longleftrightarrow> (\<exists>c. (name, File c) \<in> set d)"
proof
  assume "os_path_isfile d name"
  then obtain c where "map_of d name = Some (File c)"
    by (auto simp: os_path_isfile_def split: option.splits node.splits)
  then show "\<exists>c. (name, File c) \<in> set d" by (blast dest: map_of_SomeD)
next
  assume "\<exists>c. (name, File c) \<in> set d"
  then obtain c where "(name, File c) \<in> set d" by blast
  with assms have "map_of d name = Some (File c)" by simp
  then show "os_path_isfile d name" by (simp add: os_path_isfile_def)
qed

lemma cleanup_step:
  assumes "distinct (map fst d)"
  shows "(if os_path_isfile d name \<and> endswith name ''.csv'' then os_remove d name else d)
         = filter (\<lambda>entry. \<not> (fst entry = name \<and> is_csv_file entry)) d"
proof (cases "os_path_isfile d name \<and> endswith name ''.csv''")
  case True
  then obtain c where c: "(name, File c) \<in> set d" using isfile_iff[OF assms] by blast
  have only: "\<And>entry. entry \<in> set d \<Longrightarrow> fst entry = name \<Longrightarrow> entry = (name, File c)"
    using assms c by (metis eq_key_imp_eq_value prod.collapse)
  have "filter (\<lambda>entry. fst entry \<noteq> name) d
      = filter (\<lambda>entry. \<not> (fst entry = name \<and> is_csv_file entry)) d"
  proof (rule filter_cong[OF refl])
    fix entry assume e: "entry \<in> set d"
    show "(fst entry \<noteq> name) = (\<not> (fst entry = name \<and> is_csv_file entry))"
    proof (cases "fst entry = name")
      case same: True
      then have "entry = (name, File c)" using only e by blast
      then have "is_csv_file entry" using True by (simp add: is_csv_file_def)
      with same show ?thesis by simp
    next
      case False
      then show ?thesis by simp
    qed
  qed
  with if_P[OF True] show ?thesis by (simp only: os_remove_def)
next
  case False
  have "\<And>entry. entry \<in> set d \<Longrightarrow> \<not> (fst entry = name \<and> is_csv_file entry)"
  proof
    fix entry assume e: "entry \<in> set d" and h: "fst entry = name \<and> is_csv_file entry"
    from h have ends: "endswith name ''.csv''" unfolding is_csv_file_def by blast
    from h have "case snd entry of File c \<Rightarrow> True | Dir \<Rightarrow> False"
      unfolding is_csv_file_def by blast
    then obtain c where "snd entry = File c"
      by (cases "snd entry") simp_all
    with h have "entry = (name, File c)" by (simp add: prod_eq_iff)
    with e have "os_path_isfile d name" using isfile_iff[OF assms] by blast
    with ends False show False by simp
  qed
  then have "filter (\<lambda>entry. \<not> (fst entry = name \<and> is_csv_file entry)) d = d"
    by (simp only: filter_id_conv ball_simps) blast
  with if_not_P[OF False] show ?thesis by (simp only:)
qed

lemma cleanup_fold:
  "distinct (map fst d) \<Longrightarrow>
   fold (\<lambda>filename d'. if os_path_isfile d' filename \<and> endswith filename ''.csv''
                        then os_remove d' filename else d') names d
   = filter (\<lambda>entry. \<not> (fst entry \<in> set names \<and> is_csv_file entry)) d"
proof (induction names arbitrary: d)
  case Nil
  then show ?case by simp
next
  case (Cons name names)
  let ?d1 = "filter (\<lambda>entry. \<not> (fst entry = name \<and> is_csv_file entry)) d"
  have "distinct (map fst ?d1)" using Cons.prems by (simp add: distinct_map_filter)
  from Cons.IH[OF this] cleanup_step[OF Cons.prems, of name]
  show ?case by (simp del: os_path_isfile_def) (rule filter_cong, auto)
qed

text \<open>
  Claim C9. For a directory (no two entries with the same name), \<open>cleanup_folder\<close> removes
  exactly the regular files whose name ends with \<open>.csv\<close>; every other entry stays, with
  its content and in its place.
\<close>

theorem cleanup_folder_deletes_csv_files:
  assumes "distinct (map fst d)"
  shows "cleanup_folder d = filter (\<lambda>entry. \<not> is_csv_file entry) d"
proof -
  have "cleanup_folder d
      = filter (\<lambda>entry. \<not> (fst entry \<in> set (map fst d) \<and> is_csv_file entry)) d"
    unfolding cleanup_folder_def os_listdir_def by (rule cleanup_fold[OF assms])
  also have "\<dots> = filter (\<lambda>entry. \<not> is_csv_file entry) d"
    by (rule filter_cong) auto
  finally show ?thesis .
qed

theorem cleanup_folder_deletes_csv_files_witness:
  "distinct (map fst example_dir) \<and>
   cleanup_folder example_dir = [(''dashboard.png'', File 2), (''old.csv'', Dir)]"
proof -
  have d: "distinct (map fst example_dir)" by (simp add: example_dir_def)
  show ?thesis
    using d cleanup_folder_deletes_csv_files [OF d]
    by (simp add: example_dir_def is_csv_file_def endswith_def)
qed

subsection \<open>Merged rows and written files\<close>


lemma merged_row_the:
  assumes "{''first_name'', ''last_name'', ''email'', ''blood_type''} \<subseteq> dom p"
    and "{''doctor_name'', ''department'', ''appointment_date'', ''status'', ''consultation_fee''} \<subseteq> dom a"
  shows "merged_row p a = Inr [(''patient_name'', Some (py_str (the (p ''first_name'')) @ '' '' @ py_str (the (p ''last_name'')))),
            (''patient_email'', the (p ''email'')), (''blood_type'', the (p ''blood_type'')),
            (''doctor_name'', the (a ''doctor_name'')),
            (''department'', the (a ''department'')), (''appointment_date'', the (a ''appointment_date'')),
            (''status'', the (a ''status'')),
            (''consultation_fee'', the (a ''consultation_fee''))]"
proof -
  have *: "\<And>k d. k \<in> dom d \<Longrightarrow> d k = Some (the (d k))" by auto
  have p: "''first_name'' \<in> dom p" "''last_name'' \<in> dom p" "''email'' \<in> dom p" "''blood_type'' \<in> dom p"
    using assms(1) by (simp_all only: insert_subset)
  have a: "''doctor_name'' \<in> dom a" "''department'' \<in> dom a" "''appointment_date'' \<in> dom a"
      "''status'' \<in> dom a" "''consultation_fee'' \<in> dom a"
    using assms(2) by (simp_all only: insert_subset)
  show ?thesis
    by (rule merged_row_ok) (rule * p a, rule p a)+
qed

lemma merged_of_eq:
  assumes "{''first_name'', ''last_name'', ''email'', ''blood_type''} \<subseteq> dom p"
    and "{''doctor_name'', ''department'', ''appointment_date'', ''status'', ''consultation_fee''} \<subseteq> dom a"
  shows "merged_row p a = Inr (merged_of p a)"
    and "merged_of p a = [(''patient_name'', Some (py_str (the (p ''first_name'')) @ '' '' @ py_str (the (p ''last_name'')))),
            (''patient_email'', the (p ''email'')), (''blood_type'', the (p ''blood_type'')),
            (''doctor_name'', the (a ''doctor_name'')),
            (''department'', the (a ''department'')), (''appointment_date'', the (a ''appointment_date'')),
            (''status'', the (a ''status'')),
            (''consultation_fee'', the (a ''consultation_fee''))]"
  using merged_row_the[OF assms] by (simp_all only: merged_of_def sum.case)

lemma merged_of_keys:
  assumes "{''first_name'', ''last_name'', ''email'', ''blood_type''} \<subseteq> dom p"
    and "{''doctor_name'', ''department'', ''appointment_date'', ''status'', ''consultation_fee''} \<subseteq> dom a"
  shows "map fst (merged_of p a) = merged_columns"
  by (simp only: merged_of_eq(2)[OF assms] merged_columns_def list.map fst_conv)

lemma distinct_merged_columns: "distinct merged_columns"
  by (simp add: merged_columns_def)


lemma merged_of_fields:
  assumes "{''first_name'', ''last_name'', ''email'', ''blood_type''} \<subseteq> dom p"
    and "{''doctor_name'', ''department'', ''appointment_date'', ''status'', ''consultation_fee''} \<subseteq> dom a"
  shows "map_of (merged_of p a) ''patient_email'' = p ''email''"
    and "map_of (merged_of p a) ''blood_type'' = p ''blood_type''"
    and "map_of (merged_of p a) ''doctor_name'' = a ''doctor_name''"
    and "map_of (merged_of p a) ''department'' = a ''department''"
    and "map_of (merged_of p a) ''appointment_date'' = a ''appointment_date''"
    and "map_of (merged_of p a) ''status'' = a ''status''"
    and "map_of (merged_of p a) ''consultation_fee'' = a ''consultation_fee''"
    and "map_of (merged_of p a) ''patient_name'' =
           Some (Some (py_str (the (p ''first_name'')) @ '' '' @ py_str (the (p ''last_name''))))"
proof -
  have *: "\<And>k d. k \<in> dom d \<Longrightarrow> Some (the (d k)) = d k" by auto
  have p: "''first_name'' \<in> dom p" "''last_name'' \<in> dom p" "''email'' \<in> dom p" "''blood_type'' \<in> dom p"
    using assms(1) by (simp_all only: insert_subset)
  have a: "''doctor_name'' \<in> dom a" "''department'' \<in> dom a" "''appointment_date'' \<in> dom a"
      "''status'' \<in> dom a" "''consultation_fee'' \<in> dom a"
    using assms(2) by (simp_all only: insert_subset)
  note e = merged_of_eq(2)[OF assms]
  show "map_of (merged_of p a) ''patient_email'' = p ''email''"
    unfolding e using *[OF p(3)] by simp
  show "map_of (merged_of p a) ''blood_type'' = p ''blood_type''"
    unfolding e using *[OF p(4)] by simp
  show "map_of (merged_of p a) ''doctor_name'' = a ''doctor_name''"
    unfolding e using *[OF a(1)] by simp
  show "map_of (merged_of p a) ''department'' = a ''department''"
    unfolding e using *[OF a(2)] by simp
  show "map_of (merged_of p a) ''appointment_date'' = a ''appointment_date''"
    unfolding e using *[OF a(3)] by simp
  show "map_of (merged_of p a) ''status'' = a ''status''"
    unfolding e using *[OF a(4)] by simp
  show "map_of (merged_of p a) ''consultation_fee'' = a ''consultation_fee''"
    unfolding e using *[OF a(5)] by simp
  show "map_of (merged_of p a) ''patient_name'' =
           Some (Some (py_str (the (p ''first_name'')) @ '' '' @ py_str (the (p ''last_name''))))"
    unfolding e by simp
qed


lemma record_of_dict:
  assumes "distinct (map fst d)"
  shows "map (\<lambda>key. case map_of d key of None \<Rightarrow> [] | Some v \<Rightarrow> str v) (map fst d)
         = map (\<lambda>kv. str (snd kv)) d"
proof -
  have "\<And>kv. kv \<in> set d \<Longrightarrow> map_of d (fst kv) = Some (snd kv)"
    using assms by simp
  then show ?thesis by (simp add: comp_def)
qed

lemma write_csv_ok:
  assumes "data \<noteq> []" and "distinct fieldnames"
    and "\<And>d. d \<in> set data \<Longrightarrow> map fst d = fieldnames"
  shows "write_csv files path str data
         = (None, files(path \<mapsto> fieldnames # map (map (\<lambda>kv. str (snd kv))) data))"
proof -
  from assms(1) obtain d0 ds where data: "data = d0 # ds" by (cases data) auto
  then have h: "map fst d0 = fieldnames" using assms(3) by simp
  have w: "writerows fieldnames str data [fieldnames]
      = (None, [fieldnames] @ map (\<lambda>d. map (\<lambda>key. case map_of d key of None \<Rightarrow> [] | Some v \<Rightarrow> str v)
                               fieldnames) data)"
    by (rule writerows_ok) (simp add: assms(3))
  have "map (\<lambda>d. map (\<lambda>key. case map_of d key of None \<Rightarrow> [] | Some v \<Rightarrow> str v) fieldnames) data
      = map (map (\<lambda>kv. str (snd kv))) data"
  proof (rule map_cong[OF refl])
    fix d assume "d \<in> set data"
    then have k: "map fst d = fieldnames" by (rule assms(3))
    with assms(2) have "distinct (map fst d)" by simp
    from record_of_dict[OF this, of str] k
    show "map (\<lambda>key. case map_of d key of None \<Rightarrow> [] | Some v \<Rightarrow> str v) fieldnames
        = map (\<lambda>kv. str (snd kv)) d" by simp
  qed
  with w have "writerows fieldnames str data [fieldnames]
      = (None, fieldnames # map (map (\<lambda>kv. str (snd kv))) data)" by simp
  then show ?thesis by (simp add: write_csv_def data h)
qed

lemma write_csv_empty: "write_csv files path str [] = (Some IndexError, files(path \<mapsto> []))"
  by (simp add: write_csv_def)

lemma DictReader_dom:
  assumes "DictReader f = (Some h, ds)" and "d \<in> set ds"
  shows "dom d = set h"
proof -
  from assms obtain r where "d = row_dict h r"
    by (auto simp: DictReader_def split: list.splits)
  then show ?thesis by (simp only: dom_row_dict)
qed

lemma merge_rows_ok:
  assumes "\<And>p. p \<in> set patients \<Longrightarrow> {''first_name'', ''last_name'', ''email'', ''blood_type''} \<subseteq> dom p"
    and "\<And>a. a \<in> set appointments \<Longrightarrow>
          {''doctor_name'', ''department'', ''appointment_date'', ''status'', ''consultation_fee''} \<subseteq> dom a"
  shows "merge_rows patients appointments
         = Inr (map (\<lambda>i. merged_of (patients ! i) (appointments ! i))
                  [0 ..< min (length patients) (length appointments)])"
proof -
  have "merge_loop patients appointments [0 ..< min (length patients) (length appointments)] []
      = Inr ([] @ map (\<lambda>i. merged_of (patients ! i) (appointments ! i))
                  [0 ..< min (length patients) (length appointments)])"
  proof (rule merge_loop_ok)
    fix i assume "i \<in> set [0 ..< min (length patients) (length appointments)]"
    then have "patients ! i \<in> set patients" "appointments ! i \<in> set appointments" by simp_all
    then show "merged_row (patients ! i) (appointments ! i)
        = Inr (merged_of (patients ! i) (appointments ! i))"
      by (intro merged_of_eq(1) assms)
  qed
  then show ?thesis by (simp add: merge_rows_def)
qed

subsection \<open>The merge task\<close>


lemma reader_keys:
  assumes "DictReader f = (Some h, ds)" and "K \<subseteq> set h" and "d \<in> set ds"
  shows "K \<subseteq> dom d"
  using assms(2) by (simp only: DictReader_dom[OF assms(1) assms(3)])

lemma merge_csvs_ok:
  assumes files: "files patients_path = Some f1" "files appointments_path = Some f2"
    and rows: "merge_rows (snd (DictReader f1)) (snd (DictReader f2)) = Inr merged"
    and w: "write_csv files (os_path_join output_dir ''merged_data.csv'') cell_text merged
            = (None, files')"
  shows "merge_csvs files patients_path appointments_path output_dir
         = (Inr (os_path_join output_dir ''merged_data.csv''), files')"
  unfolding merge_csvs_def Let_def
  by (simp only: files option.case rows sum.case w prod.case)


lemma merged_list_keys:
  assumes kp: "\<And>p. p \<in> set patients \<Longrightarrow>
      {''first_name'', ''last_name'', ''email'', ''blood_type''} \<subseteq> dom p"
    and ka: "\<And>a. a \<in> set appointments \<Longrightarrow>
      {''doctor_name'', ''department'', ''appointment_date'', ''status'', ''consultation_fee''} \<subseteq> dom a"
    and d: "d \<in> set (map (\<lambda>i. merged_of (patients ! i) (appointments ! i))
                    [0 ..< min (length patients) (length appointments)])"
  shows "map fst d = merged_columns"
proof -
  from d obtain i where i: "i < min (length patients) (length appointments)"
    and eq: "d = merged_of (patients ! i) (appointments ! i)"
    by auto
  from i have "patients ! i \<in> set patients" "appointments ! i \<in> set appointments" by simp_all
  then show ?thesis unfolding eq by (intro merged_of_keys kp ka)
qed

lemma merge_rows_take:
  assumes kp: "\<And>p. p \<in> set patients \<Longrightarrow>
      {''first_name'', ''last_name'', ''email'', ''blood_type''} \<subseteq> dom p"
    and ka: "\<And>a. a \<in> set appointments \<Longrightarrow>
      {''doctor_name'', ''department'', ''appointment_date'', ''status'', ''consultation_fee''} \<subseteq> dom a"
  shows "merge_rows (take (min (length patients) (length appointments)) patients)
                    (take (min (length patients) (length appointments)) appointments)
         = merge_rows patients appointments"
proof -
  let ?m = "min (length patients) (length appointments)"
  have kp': "\<And>p. p \<in> set (take ?m patients) \<Longrightarrow>
      {''first_name'', ''last_name'', ''email'', ''blood_type''} \<subseteq> dom p"
    by (rule kp) (rule in_set_takeD)
  have ka': "\<And>a. a \<in> set (take ?m appointments) \<Longrightarrow>
      {''doctor_name'', ''department'', ''appointment_date'', ''status'', ''consultation_fee''} \<subseteq> dom a"
    by (rule ka) (rule in_set_takeD)
  have "map (\<lambda>i. merged_of (take ?m patients ! i) (take ?m appointments ! i))
                 [0 ..< min (length (take ?m patients)) (length (take ?m appointments))]
      = map (\<lambda>i. merged_of (patients ! i) (appointments ! i)) [0 ..< ?m]"
    by (rule map_cong) simp_all
  then show ?thesis
    by (simp only: merge_rows_ok[OF kp' ka'] merge_rows_ok[OF kp ka])
qed


text \<open>
  Claim C2. Both files are read, the patients file has the four patient columns the merge
  projects and the appointments file the five appointment columns, and both have at least
  one row. Then \<open>merge_csvs\<close> returns the path of the merged file, and the merged rows are
  exactly \<open>min(|patients|, |appointments|)\<close>: the row at index \<open>i\<close> is built from the
  patient and the appointment at index \<open>i\<close>, each projected field equal to its source
  field, and the rows of the longer input beyond that length change nothing.
\<close>

theorem merge_csvs_pairs_by_index:
  assumes files: "files patients_path = Some f1" "files appointments_path = Some f2"
    and read: "DictReader f1 = (Some h1, patients)" "DictReader f2 = (Some h2, appointments)"
    and nonempty: "patients \<noteq> []" "appointments \<noteq> []"
    and cols1: "{''first_name'', ''last_name'', ''email'', ''blood_type''} \<subseteq> set h1"
    and cols2: "{''doctor_name'', ''department'', ''appointment_date'', ''status'',
                 ''consultation_fee''} \<subseteq> set h2"
  shows "\<exists>merged.
      merge_rows patients appointments = Inr merged \<and>
      length merged = min (length patients) (length appointments) \<and>
      merge_csvs files patients_path appointments_path output_dir =
        (Inr (os_path_join output_dir ''merged_data.csv''),
         files(os_path_join output_dir ''merged_data.csv'' \<mapsto>
                 merged_columns # map (map (\<lambda>kv. cell_text (snd kv))) merged)) \<and>
      (\<forall>i < length merged.
         merged_row (patients ! i) (appointments ! i) = Inr (merged ! i) \<and>
         map_of (merged ! i) ''patient_email'' = (patients ! i) ''email'' \<and>
         map_of (merged ! i) ''blood_type'' = (patients ! i) ''blood_type'' \<and>
         map_of (merged ! i) ''doctor_name'' = (appointments ! i) ''doctor_name'' \<and>
         map_of (merged ! i) ''department'' = (appointments ! i) ''department'' \<and>
         map_of (merged ! i) ''appointment_date'' = (appointments ! i) ''appointment_date'' \<and>
         map_of (merged ! i) ''status'' = (appointments ! i) ''status'' \<and>
         map_of (merged ! i) ''consultation_fee'' = (appointments ! i) ''consultation_fee'') \<and>
      merge_rows (take (length merged) patients) (take (length merged) appointments) = Inr merged"
proof -
  define m where "m = min (length patients) (length appointments)"
  define merged where "merged = map (\<lambda>i. merged_of (patients ! i) (appointments ! i)) [0 ..< m]"
  define mp where "mp = os_path_join output_dir ''merged_data.csv''"
  note kp = reader_keys[OF read(1) cols1] and ka = reader_keys[OF read(2) cols2]
  have rows: "merge_rows patients appointments = Inr merged"
    unfolding merged_def m_def by (rule merge_rows_ok[OF kp ka])
  have len: "length merged = m" by (simp add: merged_def)
  have "0 < m" using nonempty by (simp add: m_def)
  with len have ne: "merged \<noteq> []" by auto
  have keys: "\<And>d. d \<in> set merged \<Longrightarrow> map fst d = merged_columns"
    unfolding merged_def m_def by (rule merged_list_keys[OF kp ka])
  have w: "write_csv files mp cell_text merged
      = (None, files(mp \<mapsto> merged_columns # map (map (\<lambda>kv. cell_text (snd kv))) merged))"
    by (rule write_csv_ok[OF ne distinct_merged_columns keys])
  have rows': "merge_rows (snd (DictReader f1)) (snd (DictReader f2)) = Inr merged"
    by (simp only: read snd_conv rows)
  have task: "merge_csvs files patients_path appointments_path output_dir =
        (Inr mp, files(mp \<mapsto> merged_columns # map (map (\<lambda>kv. cell_text (snd kv))) merged))"
    unfolding mp_def by (rule merge_csvs_ok[OF files rows' w[unfolded mp_def]])
  have fields: "\<forall>i < length merged.
         merged_row (patients ! i) (appointments ! i) = Inr (merged ! i) \<and>
         map_of (merged ! i) ''patient_email'' = (patients ! i) ''email'' \<and>
         map_of (merged ! i) ''blood_type'' = (patients ! i) ''blood_type'' \<and>
         map_of (merged ! i) ''doctor_name'' = (appointments ! i) ''doctor_name'' \<and>
         map_of (merged ! i) ''department'' = (appointments ! i) ''department'' \<and>
         map_of (merged ! i) ''appointment_date'' = (appointments ! i) ''appointment_date'' \<and>
         map_of (merged ! i) ''status'' = (appointments ! i) ''status'' \<and>
         map_of (merged ! i) ''consultation_fee'' = (appointments ! i) ''consultation_fee''"
  proof (intro allI impI)
    fix i assume "i < length merged"
    then have i: "i < m" by (simp only: len)
    then have at: "merged ! i = merged_of (patients ! i) (appointments ! i)"
      by (simp add: merged_def)
    from i have inp: "patients ! i \<in> set patients" and ina: "appointments ! i \<in> set appointments"
      by (simp_all add: m_def)
    note P = kp[OF inp] and A = ka[OF ina]
    show "merged_row (patients ! i) (appointments ! i) = Inr (merged ! i) \<and>
         map_of (merged ! i) ''patient_email'' = (patients ! i) ''email'' \<and>
         map_of (merged ! i) ''blood_type'' = (patients ! i) ''blood_type'' \<and>
         map_of (merged ! i) ''doctor_name'' = (appointments ! i) ''doctor_name'' \<and>
         map_of (merged ! i) ''department'' = (appointments ! i) ''department'' \<and>
         map_of (merged ! i) ''appointment_date'' = (appointments ! i) ''appointment_date'' \<and>
         map_of (merged ! i) ''status'' = (appointments ! i) ''status'' \<and>
         map_of (merged ! i) ''consultation_fee'' = (appointments ! i) ''consultation_fee''"
      unfolding at
      by (intro conjI merged_of_eq(1)[OF P A] merged_of_fields[OF P A])
  qed
  have trunc: "merge_rows (take (length merged) patients) (take (length merged) appointments)
      = Inr merged"
    unfolding len m_def using merge_rows_take[OF kp ka] rows by (simp only:)
  have len': "length merged = min (length patients) (length appointments)"
    using len by (simp only: m_def)
  from rows len' task[unfolded mp_def] fields trunc show ?thesis
    by (intro exI[of _ merged] conjI)
qed

theorem merge_csvs_pairs_by_index_witness:
  "length (snd (DictReader example_patients_file)) = 2 \<and>
   length (snd (DictReader example_appointments_file)) = 1 \<and>
   merge_csvs example_files ''/data/patients.csv'' ''/data/appointments.csv'' ''/data''
     = (Inr ''/data/merged_data.csv'',
        example_files(''/data/merged_data.csv'' \<mapsto>
          [merged_columns,
           [''Ada Lovelace'', ''ada@example.org'', ''A+'', ''Dr. Grace Hopper'', ''Cardiology'',
            ''2025-10-02'', ''scheduled'', ''120.5'']]))"
proof -
  have f1: "example_files ''/data/patients.csv'' = Some example_patients_file"
    and f2: "example_files ''/data/appointments.csv'' = Some example_appointments_file"
    by (simp_all add: example_files_def)
  have r1: "DictReader example_patients_file
      = (Some [''patient_id'', ''first_name'', ''last_name'', ''email'', ''blood_type''],
         snd (DictReader example_patients_file))"
    and r2: "DictReader example_appointments_file
      = (Some [''doctor_name'', ''department'', ''appointment_date'', ''status'',
               ''consultation_fee''],
         snd (DictReader example_appointments_file))"
    by (simp_all add: DictReader_def example_patients_file_def example_appointments_file_def)
  have l1: "length (snd (DictReader example_patients_file)) = 2"
    and l2: "length (snd (DictReader example_appointments_file)) = 1"
    by (simp_all add: DictReader_def example_patients_file_def example_appointments_file_def)
  have n1: "snd (DictReader example_patients_file) \<noteq> []"
    and n2: "snd (DictReader example_appointments_file) \<noteq> []"
    using l1 l2 by auto
  have c1: "{''first_name'', ''last_name'', ''email'', ''blood_type''}
      \<subseteq> set [''patient_id'', ''first_name'', ''last_name'', ''email'', ''blood_type'']"
    and c2: "{''doctor_name'', ''department'', ''appointment_date'', ''status'',
              ''consultation_fee''}
      \<subseteq> set [''doctor_name'', ''department'', ''appointment_date'', ''status'',
               ''consultation_fee'']"
    by simp_all
  from merge_csvs_pairs_by_index [where files = example_files
      and patients_path = "''/data/patients.csv''"
      and appointments_path = "''/data/appointments.csv''"
      and output_dir = "''/data''", OF f1 f2 r1 r2 n1 n2 c1 c2]
  obtain merged where
    rows: "merge_rows (snd (DictReader example_patients_file))
             (snd (DictReader example_appointments_file)) = Inr merged"
    and task: "merge_csvs example_files ''/data/patients.csv'' ''/data/appointments.csv'' ''/data''
      = (Inr (os_path_join ''/data'' ''merged_data.csv''),
         example_files(os_path_join ''/data'' ''merged_data.csv'' \<mapsto>
           merged_columns # map (map (\<lambda>kv. cell_text (snd kv))) merged))"
    by blast
  have "merge_rows (snd (DictReader example_patients_file))
             (snd (DictReader example_appointments_file))
      = Inr [[(''patient_name'', Some ''Ada Lovelace''), (''patient_email'', Some ''ada@example.org''),
              (''blood_type'', Some ''A+''), (''doctor_name'', Some ''Dr. Grace Hopper''),
              (''department'', Some ''Cardiology''), (''appointment_date'', Some ''2025-10-02''),
              (''status'', Some ''scheduled''), (''consultation_fee'', Some ''120.5'')]]"
    by (simp add: merge_rows_def DictReader_def example_patients_file_def
        example_appointments_file_def row_dict_def merged_row_def getitem_def exn_bind_def
        py_str_def)
  with rows have "merged
      = [[(''patient_name'', Some ''Ada Lovelace''), (''patient_email'', Some ''ada@example.org''),
              (''blood_type'', Some ''A+''), (''doctor_name'', Some ''Dr. Grace Hopper''),
              (''department'', Some ''Cardiology''), (''appointment_date'', Some ''2025-10-02''),
              (''status'', Some ''scheduled''), (''consultation_fee'', Some ''120.5'')]]"
    by simp
  with task l1 l2 show ?thesis
    by (simp add: os_path_join_def cell_text_def)
qed

lemma merge_rows_empty:
  assumes "patients = [] \<or> appointments = []"
  shows "merge_rows patients appointments = Inr []"
proof -
  from assms have "min (length patients) (length appointments) = 0" by auto
  then show ?thesis by (simp add: merge_rows_def)
qed

text \<open>
  Claim C3, as amended. When both files are read and at least one of them has no row,
  \<open>merge_csvs\<close> ends with an \<open>IndexError\<close> (from \<open>merged[0]\<close>), after \<open>open\<close> has
  created the merged file: the file is left empty, without a header. The source has no
  \<open>EmptyInputError\<close> and no check of the inputs.
\<close>

theorem merge_csvs_empty_input:
  assumes "files patients_path = Some f1" and "files appointments_path = Some f2"
    and "snd (DictReader f1) = [] \<or> snd (DictReader f2) = []"
  shows "merge_csvs files patients_path appointments_path output_dir
         = (Inl IndexError, files(os_path_join output_dir ''merged_data.csv'' \<mapsto> []))"
  unfolding merge_csvs_def Let_def
  by (simp only: assms(1,2) option.case merge_rows_empty[OF assms(3)] sum.case write_csv_empty
      prod.case)

theorem merge_csvs_empty_input_witness:
  "snd (DictReader []) = [] \<and>
   merge_csvs example_files_no_appointments ''/data/patients.csv'' ''/data/appointments.csv''
       ''/data''
     = (Inl IndexError, example_files_no_appointments(''/data/merged_data.csv'' \<mapsto> []))"
proof -
  have f1: "example_files_no_appointments ''/data/patients.csv'' = Some example_patients_file"
    and f2: "example_files_no_appointments ''/data/appointments.csv'' = Some []"
    by (simp_all add: example_files_no_appointments_def)
  have e: "snd (DictReader []) = []" by (simp add: DictReader_def)
  then have h: "snd (DictReader example_patients_file) = [] \<or> snd (DictReader []) = []"
    by (rule disjI2)
  from merge_csvs_empty_input [where files = example_files_no_appointments
      and patients_path = "''/data/patients.csv''"
      and appointments_path = "''/data/appointments.csv''"
      and output_dir = "''/data''", OF f1 f2 h] e
  show ?thesis by (simp add: os_path_join_def)
qed

text \<open>
  The claim as stated fails on a patients file with a header and no row: the exception is
  an \<open>IndexError\<close>, not an \<open>EmptyInputError\<close>, and an empty merged file is produced.
\<close>

theorem merge_csvs_empty_input_counterexample:
  "fst (merge_csvs example_files_no_patients ''/data/patients.csv'' ''/data/appointments.csv''
          ''/data'') = Inl IndexError \<and>
   exn_name IndexError \<noteq> ''EmptyInputError'' \<and>
   snd (merge_csvs example_files_no_patients ''/data/patients.csv'' ''/data/appointments.csv''
          ''/data'') ''/data/merged_data.csv'' = Some []"
  by (simp add: merge_csvs_def example_files_no_patients_def DictReader_def merge_rows_def
      write_csv_def os_path_join_def exn_name_def)

text \<open>
  Claim C10. Under the conditions of C2, every merged row has exactly the eight columns
  \<open>patient_name\<close>, \<open>patient_email\<close>, \<open>blood_type\<close>, \<open>doctor_name\<close>, \<open>department\<close>,
  \<open>appointment_date\<close>, \<open>status\<close>, \<open>consultation_fee\<close>, in this order, which is also the
  header of the written file, and \<open>patient_name\<close> is the patient's \<open>first_name\<close>, one
  space and the \<open>last_name\<close>, each as \<open>str\<close> prints it (a text is printed as it is).
\<close>

theorem merge_csvs_columns_and_name:
  assumes files: "files patients_path = Some f1" "files appointments_path = Some f2"
    and read: "DictReader f1 = (Some h1, patients)" "DictReader f2 = (Some h2, appointments)"
    and nonempty: "patients \<noteq> []" "appointments \<noteq> []"
    and cols1: "{''first_name'', ''last_name'', ''email'', ''blood_type''} \<subseteq> set h1"
    and cols2: "{''doctor_name'', ''department'', ''appointment_date'', ''status'',
                 ''consultation_fee''} \<subseteq> set h2"
  shows "\<exists>merged content.
      merge_rows patients appointments = Inr merged \<and> merged \<noteq> [] \<and>
      snd (merge_csvs files patients_path appointments_path output_dir)
          (os_path_join output_dir ''merged_data.csv'') = Some content \<and>
      hd content = [''patient_name'', ''patient_email'', ''blood_type'', ''doctor_name'',
                    ''department'', ''appointment_date'', ''status'', ''consultation_fee''] \<and>
      (\<forall>i < length merged.
         map fst (merged ! i) =
           [''patient_name'', ''patient_email'', ''blood_type'', ''doctor_name'',
            ''department'', ''appointment_date'', ''status'', ''consultation_fee''] \<and>
         length (content ! Suc i) = 8 \<and>
         (\<exists>f l. (patients ! i) ''first_name'' = Some f \<and> (patients ! i) ''last_name'' = Some l \<and>
            map_of (merged ! i) ''patient_name'' = Some (Some (py_str f @ '' '' @ py_str l)) \<and>
            content ! Suc i ! 0 = py_str f @ '' '' @ py_str l) \<and>
         (\<forall>f l. (patients ! i) ''first_name'' = Some (Some f) \<longrightarrow>
                (patients ! i) ''last_name'' = Some (Some l) \<longrightarrow>
                map_of (merged ! i) ''patient_name'' = Some (Some (f @ '' '' @ l)) \<and>
                content ! Suc i ! 0 = f @ '' '' @ l))"
proof -
  define m where "m = min (length patients) (length appointments)"
  define merged where "merged = map (\<lambda>i. merged_of (patients ! i) (appointments ! i)) [0 ..< m]"
  define mp where "mp = os_path_join output_dir ''merged_data.csv''"
  define content where
    "content = merged_columns # map (map (\<lambda>kv. cell_text (snd kv))) merged"
  note kp = reader_keys[OF read(1) cols1] and ka = reader_keys[OF read(2) cols2]
  have rows: "merge_rows patients appointments = Inr merged"
    unfolding merged_def m_def by (rule merge_rows_ok[OF kp ka])
  have len: "length merged = m" by (simp add: merged_def)
  have "0 < m" using nonempty by (simp add: m_def)
  with len have ne: "merged \<noteq> []" by auto
  have keys: "\<And>d. d \<in> set merged \<Longrightarrow> map fst d = merged_columns"
    unfolding merged_def m_def by (rule merged_list_keys[OF kp ka])
  have w: "write_csv files mp cell_text merged = (None, files(mp \<mapsto> content))"
    unfolding content_def by (rule write_csv_ok[OF ne distinct_merged_columns keys])
  have rows': "merge_rows (snd (DictReader f1)) (snd (DictReader f2)) = Inr merged"
    by (simp only: read snd_conv rows)
  have "merge_csvs files patients_path appointments_path output_dir
      = (Inr mp, files(mp \<mapsto> content))"
    unfolding mp_def by (rule merge_csvs_ok[OF files rows' w[unfolded mp_def]])
  then have fl: "snd (merge_csvs files patients_path appointments_path output_dir) mp
      = Some content"
    by simp
  have hdc: "hd content = [''patient_name'', ''patient_email'', ''blood_type'', ''doctor_name'',
                    ''department'', ''appointment_date'', ''status'', ''consultation_fee'']"
    by (simp only: content_def list.sel merged_columns_def)
  have each: "\<forall>i < length merged.
         map fst (merged ! i) =
           [''patient_name'', ''patient_email'', ''blood_type'', ''doctor_name'',
            ''department'', ''appointment_date'', ''status'', ''consultation_fee''] \<and>
         length (content ! Suc i) = 8 \<and>
         (\<exists>f l. (patients ! i) ''first_name'' = Some f \<and> (patients ! i) ''last_name'' = Some l \<and>
            map_of (merged ! i) ''patient_name'' = Some (Some (py_str f @ '' '' @ py_str l)) \<and>
            content ! Suc i ! 0 = py_str f @ '' '' @ py_str l) \<and>
         (\<forall>f l. (patients ! i) ''first_name'' = Some (Some f) \<longrightarrow>
                (patients ! i) ''last_name'' = Some (Some l) \<longrightarrow>
                map_of (merged ! i) ''patient_name'' = Some (Some (f @ '' '' @ l)) \<and>
                content ! Suc i ! 0 = f @ '' '' @ l)"
  proof (intro allI impI)
    fix i assume il: "i < length merged"
    then have i: "i < m" by (simp only: len)
    then have at: "merged ! i = merged_of (patients ! i) (appointments ! i)"
      by (simp add: merged_def)
    from i have inp: "patients ! i \<in> set patients" and ina: "appointments ! i \<in> set appointments"
      by (simp_all add: m_def)
    note P = kp[OF inp] and A = ka[OF ina]
    have k: "map fst (merged ! i) = merged_columns"
      using keys il by simp
    have rec: "content ! Suc i = map (\<lambda>kv. cell_text (snd kv)) (merged ! i)"
      using il by (simp add: content_def)
    have l8: "length (content ! Suc i) = 8"
    proof -
      have "length (content ! Suc i) = length (map fst (merged ! i))" by (simp add: rec)
      also have "\<dots> = 8" by (simp only: k) (simp add: merged_columns_def)
      finally show ?thesis .
    qed
    from P have "''first_name'' \<in> dom (patients ! i)" "''last_name'' \<in> dom (patients ! i)"
      by (simp_all only: insert_subset)
    then obtain f l where f: "(patients ! i) ''first_name'' = Some f"
      and l: "(patients ! i) ''last_name'' = Some l" by blast
    have name: "map_of (merged ! i) ''patient_name'' = Some (Some (py_str f @ '' '' @ py_str l))"
      using merged_of_fields(8)[OF P A] by (simp only: at f l option.sel)
    have first: "content ! Suc i ! 0 = py_str f @ '' '' @ py_str l"
      unfolding rec at merged_of_eq(2)[OF P A] by (simp add: f l cell_text_def)
    have plain: "\<forall>f' l'. (patients ! i) ''first_name'' = Some (Some f') \<longrightarrow>
                (patients ! i) ''last_name'' = Some (Some l') \<longrightarrow>
                map_of (merged ! i) ''patient_name'' = Some (Some (f' @ '' '' @ l')) \<and>
                content ! Suc i ! 0 = f' @ '' '' @ l'"
      using name first f l by (auto simp: py_str_def)
    from k l8 f l name first plain
    show "map fst (merged ! i) =
           [''patient_name'', ''patient_email'', ''blood_type'', ''doctor_name'',
            ''department'', ''appointment_date'', ''status'', ''consultation_fee''] \<and>
         length (content ! Suc i) = 8 \<and>
         (\<exists>f l. (patients ! i) ''first_name'' = Some f \<and> (patients ! i) ''last_name'' = Some l \<and>
            map_of (merged ! i) ''patient_name'' = Some (Some (py_str f @ '' '' @ py_str l)) \<and>
            content ! Suc i ! 0 = py_str f @ '' '' @ py_str l) \<and>
         (\<forall>f l. (patients ! i) ''first_name'' = Some (Some f) \<longrightarrow>
                (patients ! i) ''last_name'' = Some (Some l) \<longrightarrow>
                map_of (merged ! i) ''patient_name'' = Some (Some (f @ '' '' @ l)) \<and>
                content ! Suc i ! 0 = f @ '' '' @ l)"
      unfolding merged_columns_def by blast
  qed
  from rows ne fl[unfolded mp_def] hdc each show ?thesis
    by (intro exI[of _ merged] exI[of _ content] conjI)
qed

theorem merge_csvs_columns_and_name_witness:
  "hd (the (snd (merge_csvs example_files ''/data/patients.csv'' ''/data/appointments.csv''
                   ''/data'') ''/data/merged_data.csv''))
     = [''patient_name'', ''patient_email'', ''blood_type'', ''doctor_name'',
        ''department'', ''appointment_date'', ''status'', ''consultation_fee''] \<and>
   the (snd (merge_csvs example_files ''/data/patients.csv'' ''/data/appointments.csv''
                   ''/data'') ''/data/merged_data.csv'') ! 1 ! 0 = ''Ada Lovelace''"
proof -
  have f1: "example_files ''/data/patients.csv'' = Some example_patients_file"
    and f2: "example_files ''/data/appointments.csv'' = Some example_appointments_file"
    by (simp_all add: example_files_def)
  have r1: "DictReader example_patients_file
      = (Some [''patient_id'', ''first_name'', ''last_name'', ''email'', ''blood_type''],
         snd (DictReader example_patients_file))"
    and r2: "DictReader example_appointments_file
      = (Some [''doctor_name'', ''department'', ''appointment_date'', ''status'',
               ''consultation_fee''],
         snd (DictReader example_appointments_file))"
    by (simp_all add: DictReader_def example_patients_file_def example_appointments_file_def)
  have n1: "snd (DictReader example_patients_file) \<noteq> []"
    and n2: "snd (DictReader example_appointments_file) \<noteq> []"
    by (simp_all add: DictReader_def example_patients_file_def example_appointments_file_def)
  have c1: "{''first_name'', ''last_name'', ''email'', ''blood_type''}
      \<subseteq> set [''patient_id'', ''first_name'', ''last_name'', ''email'', ''blood_type'']"
    and c2: "{''doctor_name'', ''department'', ''appointment_date'', ''status'',
              ''consultation_fee''}
      \<subseteq> set [''doctor_name'', ''department'', ''appointment_date'', ''status'',
               ''consultation_fee'']"
    by simp_all
  have first: "(snd (DictReader example_patients_file) ! 0) ''first_name'' = Some (Some ''Ada'')"
    and last: "(snd (DictReader example_patients_file) ! 0) ''last_name'' = Some (Some ''Lovelace'')"
    by (simp_all add: DictReader_def example_patients_file_def row_dict_def)
  from merge_csvs_columns_and_name [where files = example_files
      and patients_path = "''/data/patients.csv''"
      and appointments_path = "''/data/appointments.csv''"
      and output_dir = "''/data''", OF f1 f2 r1 r2 n1 n2 c1 c2]
  obtain merged content where ne: "merged \<noteq> []"
    and fl: "snd (merge_csvs example_files ''/data/patients.csv'' ''/data/appointments.csv''
                ''/data'') (os_path_join ''/data'' ''merged_data.csv'') = Some content"
    and hdc: "hd content = [''patient_name'', ''patient_email'', ''blood_type'', ''doctor_name'',
                    ''department'', ''appointment_date'', ''status'', ''consultation_fee'']"
    and each: "\<forall>i < length merged.
         map fst (merged ! i) =
           [''patient_name'', ''patient_email'', ''blood_type'', ''doctor_name'',
            ''department'', ''appointment_date'', ''status'', ''consultation_fee''] \<and>
         length (content ! Suc i) = 8 \<and>
         (\<exists>f l. (snd (DictReader example_patients_file) ! i) ''first_name'' = Some f \<and>
            (snd (DictReader example_patients_file) ! i) ''last_name'' = Some l \<and>
            map_of (merged ! i) ''patient_name'' = Some (Some (py_str f @ '' '' @ py_str l)) \<and>
            content ! Suc i ! 0 = py_str f @ '' '' @ py_str l) \<and>
         (\<forall>f l. (snd (DictReader example_patients_file) ! i) ''first_name'' = Some (Some f) \<longrightarrow>
                (snd (DictReader example_patients_file) ! i) ''last_name'' = Some (Some l) \<longrightarrow>
                map_of (merged ! i) ''patient_name'' = Some (Some (f @ '' '' @ l)) \<and>
                content ! Suc i ! 0 = f @ '' '' @ l)"
    by (elim exE conjE) (rule that; assumption)
  from ne have pos: "0 < length merged" by simp
  note at0 = each[rule_format, OF pos]
  note w0 = conjunct2[OF conjunct2[OF conjunct2[OF at0]]]
  note n0 = w0[rule_format, OF first last]
  have "content ! Suc 0 ! 0 = ''Ada'' @ '' '' @ ''Lovelace''" by (rule conjunct2[OF n0])
  moreover have "os_path_join ''/data'' ''merged_data.csv'' = ''/data/merged_data.csv''"
    by (simp add: os_path_join_def)
  ultimately show ?thesis using fl hdc by simp
qed

end
